theory Spec2Isabelle
  imports Main "HOL-Library.Char_ord" "HOL-Library.List_Lexorder"
begin

section \<open>Messages and the per-account responder state\<close>

text \<open>
  A chat message is a JSON object of the chat API. The responder reads it only through
  \<^verbatim>\<open>message.get("uuid", "")\<close>, \<^verbatim>\<open>message.get("sender", {}).get("uuid", "")\<close>,
  \<^verbatim>\<open>message.get("sentAt", "")\<close> and \<^verbatim>\<open>message.get("text", "")\<close>, so a missing key and
  an empty string are the same to it: the record holds the four strings read, a missing
  key being the empty string.

  Timestamps are compared as Python strings (\<^verbatim>\<open><=\<close>, \<^verbatim>\<open>max\<close>, the sort key): the
  lexicographic order on code points, which is the lexicographic order on the UTF-8
  bytes of \<^typ>\<open>string\<close>.
\<close>

record message =
  msg_uuid :: string
  msg_sender :: string
  msg_sentAt :: string
  msg_text :: string

text \<open>
  \<^verbatim>\<open>self.last_message_timestamps: Dict[str, str]\<close> and
  \<^verbatim>\<open>self.processed_messages: Set[str]\<close> of \<^verbatim>\<open>EnhancedFanvueAutoResponder\<close>.
  The set of processed ids is one set for the whole account, shared by all subscribers.
\<close>

record responder_state =
  last_message_timestamps :: "string \<rightharpoonup> string"
  processed_messages :: "string set"

definition empty_state :: responder_state where
  "empty_state = \<lparr>last_message_timestamps = Map.empty, processed_messages = {}\<rparr>"

text \<open>\<^verbatim>\<open>self.last_message_timestamps.get(user_uuid, "")\<close>\<close>

definition stored_timestamp :: "responder_state \<Rightarrow> string \<Rightarrow> string" where
  "stored_timestamp st user_uuid =
     (case last_message_timestamps st user_uuid of None \<Rightarrow> [] | Some t \<Rightarrow> t)"

subsection \<open>\<^verbatim>\<open>str.strip()\<close>\<close>

text \<open>
  \<^verbatim>\<open>str.strip()\<close> removes from both ends the code points Python counts as whitespace:
  U+0009 to U+000D, U+001C to U+0020, U+0085, U+00A0, U+1680, U+2000 to U+200A, U+2028,
  U+2029, U+202F, U+205F and U+3000. A \<^typ>\<open>string\<close> holds the UTF-8 bytes of the Python
  string, so these are the one-byte encodings 09 to 0D, 1C to 1F and 20, the two-byte
  encodings C2 85 and C2 A0, and the three-byte encodings E1 9A 80, E2 80 80 to
  E2 80 8A, E2 80 A8, E2 80 A9, E2 80 AF, E2 81 9F and E3 80 80.
\<close>

definition space1 :: "char \<Rightarrow> bool" where
  "space1 a = (a \<in> set [CHR 0x09, CHR 0x0A, CHR 0x0B, CHR 0x0C, CHR 0x0D,
                           CHR 0x1C, CHR 0x1D, CHR 0x1E, CHR 0x1F, CHR 0x20])"

definition space2 :: "char \<Rightarrow> char \<Rightarrow> bool" where
  "space2 a b = (a = CHR 0xC2 \<and> b \<in> set [CHR 0x85, CHR 0xA0])"

definition space3 :: "char \<Rightarrow> char \<Rightarrow> char \<Rightarrow> bool" where
  "space3 a b c =
     ((a = CHR 0xE1 \<and> b = CHR 0x9A \<and> c = CHR 0x80) \<or>
      (a = CHR 0xE2 \<and> b = CHR 0x80 \<and>
         c \<in> set [CHR 0x80, CHR 0x81, CHR 0x82, CHR 0x83, CHR 0x84, CHR 0x85, CHR 0x86,
                    CHR 0x87, CHR 0x88, CHR 0x89, CHR 0x8A, CHR 0xA8, CHR 0xA9, CHR 0xAF]) \<or>
      (a = CHR 0xE2 \<and> b = CHR 0x81 \<and> c = CHR 0x9F) \<or>
      (a = CHR 0xE3 \<and> b = CHR 0x80 \<and> c = CHR 0x80))"

text \<open>The number of bytes of the whitespace code point a string starts with; 0 when it
  starts with none.\<close>

fun leading_space :: "string \<Rightarrow> nat" where
  "leading_space [] = 0"
| "leading_space [a] = (if space1 a then 1 else 0)"
| "leading_space [a, b] = (if space1 a then 1 else if space2 a b then 2 else 0)"
| "leading_space (a # b # c # s) =
     (if space1 a then 1 else if space2 a b then 2 else if space3 a b c then 3 else 0)"

text \<open>The same for the code point a string ends with; the argument is the reversed
  string, so its bytes come last byte first.\<close>

fun trailing_space :: "string \<Rightarrow> nat" where
  "trailing_space [] = 0"
| "trailing_space [c] = (if space1 c then 1 else 0)"
| "trailing_space [c, b] = (if space1 c then 1 else if space2 b c then 2 else 0)"
| "trailing_space (c # b # a # s) =
     (if space1 c then 1 else if space2 b c then 2 else if space3 a b c then 3 else 0)"

function lstrip :: "string \<Rightarrow> string" where
  "lstrip s = (if leading_space s = 0 then s else lstrip (drop (leading_space s) s))"
  by pat_completeness auto
termination
proof (relation "measure length")
  show "wf (measure length)" by simp
next
  fix s :: string
  assume "leading_space s \<noteq> 0"
  then show "(drop (leading_space s) s, s) \<in> measure length"
    by (cases s rule: leading_space.cases) (auto split: if_splits)
qed

function rstrip_rev :: "string \<Rightarrow> string" where
  "rstrip_rev r = (if trailing_space r = 0 then r else rstrip_rev (drop (trailing_space r) r))"
  by pat_completeness auto
termination
proof (relation "measure length")
  show "wf (measure length)" by simp
next
  fix r :: string
  assume "trailing_space r \<noteq> 0"
  then show "(drop (trailing_space r) r, r) \<in> measure length"
    by (cases r rule: trailing_space.cases) (auto split: if_splits)
qed

declare lstrip.simps [simp del] rstrip_rev.simps [simp del]

definition strip :: "string \<Rightarrow> string" where
  "strip s = rev (rstrip_rev (rev (lstrip s)))"

section \<open>Resolution of unanswered messages\<close>

text \<open>
  The test of the collecting loop of \<^verbatim>\<open>check_for_unanswered_messages\<close>: a message is
  kept unless it is the operator's own, has blank text or a processed id (first
  \<^verbatim>\<open>continue\<close>), or the stored timestamp is non-empty and the message is not later than
  it (second \<^verbatim>\<open>continue\<close>).
\<close>

definition is_new_message :: "string \<Rightarrow> responder_state \<Rightarrow> string \<Rightarrow> message \<Rightarrow> bool" where
  "is_new_message my_uuid st last_processed_timestamp m =
     (if msg_sender m = my_uuid \<or> strip (msg_text m) = [] \<or> msg_uuid m \<in> processed_messages st
      then False
      else if last_processed_timestamp \<noteq> [] \<and> msg_sentAt m \<le> last_processed_timestamp
      then False
      else True)"

text \<open>
  \<^verbatim>\<open>check_for_unanswered_messages\<close>. The two awaited calls are inputs: \<open>fetched\<close> is
  what \<^verbatim>\<open>get_chat_messages(user_uuid, limit=20)\<close> returned and \<open>my_uuid\<close> is
  \<^verbatim>\<open>current_user.get("uuid", "")\<close>. The result is the returned list together with the
  responder's state after the call. \<^verbatim>\<open>list.sort\<close> is stable, as \<^const>\<open>sort_key\<close> is.
\<close>

definition check_for_unanswered_messages ::
  "string \<Rightarrow> string \<Rightarrow> message list \<Rightarrow> responder_state \<Rightarrow> message list \<times> responder_state" where
  "check_for_unanswered_messages my_uuid user_uuid fetched st =
     (if fetched = [] then ([], st)
      else
        let messages = sort_key msg_sentAt fetched in
        if msg_sender (last messages) = my_uuid then ([], st)
        else
          let last_processed_timestamp = stored_timestamp st user_uuid;
              new_subscriber_messages =
                filter (is_new_message my_uuid st last_processed_timestamp) messages;
              (unanswered_messages, st1) =
                (if new_subscriber_messages \<noteq> [] then
                   let latest_new_message = last (sort_key msg_sentAt new_subscriber_messages)
                   in ([latest_new_message],
                       st\<lparr>processed_messages :=
                            insert (msg_uuid latest_new_message) (processed_messages st)\<rparr>)
                 else ([], st));
              newest_timestamp = Max (set (map msg_sentAt messages))
          in (unanswered_messages,
              st1\<lparr>last_message_timestamps :=
                    (last_message_timestamps st1)(user_uuid \<mapsto> newest_timestamp)\<rparr>))"

subsection \<open>Start-up: loading and trimming the state\<close>

text \<open>
  \<^verbatim>\<open>cleanup_old_processed_messages\<close>. \<^verbatim>\<open>list(self.processed_messages)\<close> lists a Python
  set in its iteration order, which depends on the hashes of the strings; that order is
  the parameter \<open>set_to_list\<close>. \<^verbatim>\<open>processed_list[-1000:]\<close> is the list without its first
  \<open>len - 1000\<close> elements.
\<close>

definition cleanup_old_processed_messages ::
  "(string set \<Rightarrow> string list) \<Rightarrow> responder_state \<Rightarrow> responder_state" where
  "cleanup_old_processed_messages set_to_list st =
     (if card (processed_messages st) > 1000 then
        let processed_list = set_to_list (processed_messages st)
        in st\<lparr>processed_messages := set (drop (length processed_list - 1000) processed_list)\<rparr>
      else st)"

text \<open>
  The state part of \<^verbatim>\<open>__init__\<close>: both containers start empty, \<^verbatim>\<open>load_state\<close>
  replaces them by the stored ones when the state file exists and can be read
  (\<open>Some\<close>), and \<^verbatim>\<open>cleanup_old_processed_messages\<close> runs once. Nothing else in the
  responder calls the clean-up.
\<close>

definition responder_init ::
  "(string set \<Rightarrow> string list) \<Rightarrow> responder_state option \<Rightarrow> responder_state" where
  "responder_init set_to_list stored =
     cleanup_old_processed_messages set_to_list
       (case stored of None \<Rightarrow> empty_state | Some st \<Rightarrow> st)"

text \<open>
  Successive calls of \<^verbatim>\<open>check_for_unanswered_messages\<close> on one responder, as
  \<^verbatim>\<open>monitor_single_cycle\<close> makes them cycle after cycle: each pass has the operator
  uuid that \<^verbatim>\<open>get_current_user\<close> gave, the subscriber's uuid and the fetched view.
\<close>

fun resolution_passes ::
  "(string \<times> string \<times> message list) list \<Rightarrow> responder_state \<Rightarrow> responder_state" where
  "resolution_passes [] st = st"
| "resolution_passes ((my_uuid, user_uuid, fetched) # rest) st =
     resolution_passes rest (snd (check_for_unanswered_messages my_uuid user_uuid fetched st))"

section \<open>The account monitor\<close>

text \<open>
  How the body of the \<^verbatim>\<open>try\<close> of \<^verbatim>\<open>monitor_single_cycle\<close> ends: it returns a
  count, it raises an \<^verbatim>\<open>Exception\<close> (a cycle-level exception: one that no handler
  inside the cycle has caught), or it is cancelled (\<^verbatim>\<open>asyncio.CancelledError\<close>, which
  is no \<^verbatim>\<open>Exception\<close>).
\<close>

datatype cycle_body = BodyReturned nat | BodyRaised | BodyCancelled

text \<open>How an \<^verbatim>\<open>await responder.monitor_single_cycle()\<close> ends for its caller.\<close>

datatype cycle_result = Returned nat | Raised | Cancelled

text \<open>
  The \<^verbatim>\<open>try\<close> and \<^verbatim>\<open>except Exception\<close> that enclose the whole of
  \<^verbatim>\<open>monitor_single_cycle\<close>, in \<^verbatim>\<open>fanvue_responder.py\<close> and in
  \<^verbatim>\<open>fanvue_responder_enhanced.py\<close> alike: an exception of the body is printed and the
  method returns 0.
\<close>

definition single_cycle_result :: "cycle_body \<Rightarrow> cycle_result" where
  "single_cycle_result b =
     (case b of
        BodyReturned unanswered_message_count \<Rightarrow> Returned unanswered_message_count
      | BodyRaised \<Rightarrow> Returned 0
      | BodyCancelled \<Rightarrow> Cancelled)"

text \<open>
  \<^verbatim>\<open>monitor_account_continuously\<close> of \<^verbatim>\<open>main.py\<close>; the one of
  \<^verbatim>\<open>multi_account_manager.py\<close> has the same loop with other sleep lengths. What the
  surroundings do in one iteration of the \<^verbatim>\<open>while\<close> loop is its input: whether
  \<^verbatim>\<open>shutdown_event\<close> is set at the loop test, how the body of the cycle ended, and
  whether the \<^verbatim>\<open>asyncio.sleep\<close> that ends the iteration was cancelled.
\<close>

record iteration =
  shutdown_set :: bool
  body :: cycle_body
  sleep_cancelled :: bool

text \<open>
  The local variable \<^verbatim>\<open>consecutive_errors\<close>, whether the loop is still running, and the
  number of calls of \<^verbatim>\<open>monitor_single_cycle\<close> made so far.
\<close>

record monitor =
  consecutive_errors :: nat
  running :: bool
  cycles :: nat

definition max_consecutive_errors :: nat where
  "max_consecutive_errors = 5"

definition monitor_start :: monitor where
  "monitor_start = \<lparr>consecutive_errors = 0, running = True, cycles = 0\<rparr>"

text \<open>
  The inner \<^verbatim>\<open>try\<close> of the loop once the call of \<^verbatim>\<open>monitor_single_cycle\<close> has ended:
  the branch for a returned count, the \<^verbatim>\<open>except Exception\<close> branch, and the
  cancellation that leaves the loop.
\<close>

definition monitor_after_cycle :: "cycle_result \<Rightarrow> bool \<Rightarrow> monitor \<Rightarrow> monitor" where
  "monitor_after_cycle result cancelled_in_sleep m =
     (case result of
        Returned message_count \<Rightarrow>
          let m1 = (if message_count > 0 then m\<lparr>consecutive_errors := 0\<rparr> else m);
              m2 = m1\<lparr>cycles := cycles m1 + 1\<rparr>
          in if cancelled_in_sleep then m2\<lparr>running := False\<rparr> else m2
      | Raised \<Rightarrow>
          let m1 = m\<lparr>consecutive_errors := consecutive_errors m + 1, cycles := cycles m + 1\<rparr>
          in if consecutive_errors m1 \<ge> max_consecutive_errors then m1\<lparr>running := False\<rparr>
             else if cancelled_in_sleep then m1\<lparr>running := False\<rparr>
             else m1
      | Cancelled \<Rightarrow> m\<lparr>cycles := cycles m + 1, running := False\<rparr>)"

definition monitor_iteration :: "iteration \<Rightarrow> monitor \<Rightarrow> monitor" where
  "monitor_iteration it m =
     (if shutdown_set it then m\<lparr>running := False\<rparr>
      else monitor_after_cycle (single_cycle_result (body it)) (sleep_cancelled it) m)"

text \<open>
  The loop over a finite run of iterations. Once the loop is left (\<^verbatim>\<open>break\<close>, shutdown
  or cancellation) nothing more is run.
\<close>

fun monitor_account_continuously :: "iteration list \<Rightarrow> monitor \<Rightarrow> monitor" where
  "monitor_account_continuously [] m = m"
| "monitor_account_continuously (it # its) m =
     (if running m then monitor_account_continuously its (monitor_iteration it m) else m)"

section \<open>The conversation context\<close>

text \<open>\<^verbatim>\<open>sep.join(lines)\<close>\<close>

fun join :: "string \<Rightarrow> string list \<Rightarrow> string" where
  "join sep [] = []"
| "join sep [x] = x"
| "join sep (x # y # ys) = x @ sep @ join sep (y # ys)"

text \<open>
  The \<^verbatim>\<open>for msg in recent_messages\<close> loop of \<^verbatim>\<open>build_conversation_context\<close>: a
  message with blank text is skipped, the operator's line starts with \<^verbatim>\<open>You: \<close>, any
  other line with the subscriber's handle.
\<close>

fun conversation_lines :: "string \<Rightarrow> string \<Rightarrow> message list \<Rightarrow> string list" where
  "conversation_lines my_uuid user_handle [] = []"
| "conversation_lines my_uuid user_handle (msg # rest) =
     (let text = strip (msg_text msg) in
      if text = [] then conversation_lines my_uuid user_handle rest
      else if msg_sender msg = my_uuid
      then (''You: '' @ text) # conversation_lines my_uuid user_handle rest
      else (user_handle @ '': '' @ text) # conversation_lines my_uuid user_handle rest)"

text \<open>
  \<^verbatim>\<open>sorted(chat_history, key=...)\<close> followed by
  \<^verbatim>\<open>sorted_messages[-20:] if len(sorted_messages) > 20 else sorted_messages\<close>.
\<close>

definition recent_messages :: "message list \<Rightarrow> message list" where
  "recent_messages chat_history =
     (let sorted_messages = sort_key msg_sentAt chat_history in
      if length sorted_messages > 20
      then drop (length sorted_messages - 20) sorted_messages
      else sorted_messages)"

definition start_of_conversation :: string where
  "start_of_conversation = ''This is the start of your conversation.''"

text \<open>
  What \<^verbatim>\<open>await self.get_current_user()\<close> returned, as
  \<^verbatim>\<open>current_user.get("uuid", "")\<close> finds it: a JSON object, with the uuid read from it
  (the empty string when it has none, as for the \<^verbatim>\<open>{}\<close> that \<^verbatim>\<open>get_current_user\<close>
  returns when its request fails), or a JSON value that is no object, on which
  \<^verbatim>\<open>.get\<close> raises \<^verbatim>\<open>AttributeError\<close>.
\<close>

datatype current_user = UserObject string | UserNotObject

definition context_unavailable :: string where
  "context_unavailable = ''Previous conversation context unavailable.''"

text \<open>
  \<^verbatim>\<open>build_conversation_context\<close>. The empty history returns before the current user
  is asked for. With messages whose fields are strings the only exception inside the
  \<^verbatim>\<open>try\<close> is the one of a current user that is no object; the
  \<^verbatim>\<open>except Exception\<close> turns it into the second fixed sentence.
\<close>

definition build_conversation_context ::
  "current_user \<Rightarrow> message list \<Rightarrow> string \<Rightarrow> string" where
  "build_conversation_context current_user chat_history user_handle =
     (if chat_history = [] then start_of_conversation
      else
        case current_user of
          UserNotObject \<Rightarrow> context_unavailable
        | UserObject my_uuid \<Rightarrow>
            let lines = conversation_lines my_uuid user_handle (recent_messages chat_history)
            in if lines \<noteq> []
               then ''Conversation history:'' @ [CHR 0x0A] @ join [CHR 0x0A] lines
               else start_of_conversation)"

subsection \<open>The cap as the specification words it\<close>

text \<open>
  The specification's glossary: a conversation turn is a maximal run of consecutive
  messages from one sender. \<open>spec_turns\<close> cuts a history into its turns and
  \<open>spec_last_turns n\<close> keeps the messages of the last \<open>n\<close> turns;
  \<open>spec_context_lines\<close> renders a history capped at the last 20 turns.
\<close>

function spec_turns :: "message list \<Rightarrow> message list list" where
  "spec_turns [] = []"
| "spec_turns (m # ms) =
     (m # takeWhile (\<lambda>x. msg_sender x = msg_sender m) ms)
       # spec_turns (dropWhile (\<lambda>x. msg_sender x = msg_sender m) ms)"
  by pat_completeness auto
termination
  by (relation "measure length") (auto simp: length_dropWhile_le le_imp_less_Suc)

definition spec_last_turns :: "nat \<Rightarrow> message list \<Rightarrow> message list" where
  "spec_last_turns n ms = concat (drop (length (spec_turns ms) - n) (spec_turns ms))"

definition spec_context_lines :: "string \<Rightarrow> string \<Rightarrow> message list \<Rightarrow> string list" where
  "spec_context_lines my_uuid user_handle chat_history =
     conversation_lines my_uuid user_handle (spec_last_turns 20 (sort_key msg_sentAt chat_history))"

section \<open>Reply generation\<close>

text \<open>
  Of a \<^verbatim>\<open>FanvueAccount\<close> the generator reads the two optional settings \<^verbatim>\<open>llm\<close> and
  \<^verbatim>\<open>system_prompt\<close> (and the id, for the lookup and the log lines only).
\<close>

record account =
  acc_llm :: "string option"
  acc_system_prompt :: "string option"

text \<open>
  The collaborators of the generator, by what they answer. The lookup
  \<^verbatim>\<open>db_manager.get_fanvue_account_by_id\<close> raises, returns \<^verbatim>\<open>None\<close> or returns an
  account. A request to the chat-completion backend fails (missing configuration key,
  transport error, error status), answers without choices or answers with content. At
  the job queue the submit fails or is accepted under a request id; a status poll fails
  or gives a status string; the fetch of the result fails (also when the answer has no
  \<^verbatim>\<open>output\<close>), carries an \<^verbatim>\<open>error\<close> or carries the output.
\<close>

datatype lookup = LookupRaised | LookupNone | LookupFound account

datatype completion = CompletionFailed | CompletionNoChoices | CompletionContent string

datatype submit = SubmitFailed | SubmitAccepted string

datatype poll = PollFailed | PollStatus string

datatype fetch = FetchFailed | FetchError | FetchOutput string

record backends =
  account_lookup :: lookup
  stheno :: "string \<Rightarrow> string \<Rightarrow> completion"
  fal_submit :: "string \<Rightarrow> string \<Rightarrow> string \<Rightarrow> submit"
  fal_status :: "string \<Rightarrow> nat \<Rightarrow> poll"
  fal_result :: "string \<Rightarrow> fetch"

text \<open>
  \<open>stheno env user_prompt system_prompt\<close> is the answer to the chat-completion request,
  \<open>fal_submit env user_prompt system_prompt model\<close> the answer to the submit,
  \<open>fal_status env request_id k\<close> the answer to the \<open>k\<close>-th status poll (from 0) and
  \<open>fal_result env request_id\<close> the answer to the fetch of the result.

  The exceptions the generator functions raise.
\<close>

datatype generation_error =
  LookupError | RequestError | NoContent | FalError | FalFailed | FalTimedOut

definition default_model :: string where
  "default_model = ''google/gemini-2.0-flash-001''"

definition default_system_prompt :: string where
  "default_system_prompt =
     ''You are responding to messages from subscribers on Fanvue (a creator platform).'' @ [CHR 0x0A] @
     [CHR 0x0A] @
     ''Generate friendly, engaging, and personalized responses that:'' @ [CHR 0x0A] @
     ''- Acknowledge their message'' @ [CHR 0x0A] @
     ''- Show genuine interest in them  '' @ [CHR 0x0A] @
     ''- Keep the conversation going'' @ [CHR 0x0A] @
     ''- Maintain a warm but professional tone'' @ [CHR 0x0A] @
     ''- Are concise (1-3 sentences)'' @ [CHR 0x0A] @
     [CHR 0x0A] @
     ''Be authentic, flirty when appropriate, and make each subscriber feel special.''"

text \<open>\<^verbatim>\<open>v if v else d\<close> and \<^verbatim>\<open>v or d\<close> on an optional string: \<^verbatim>\<open>None\<close> and the empty
  string are both false.\<close>

definition value_or :: "string option \<Rightarrow> string \<Rightarrow> string" where
  "value_or v d = (case v of None \<Rightarrow> d | Some s \<Rightarrow> if s = [] then d else s)"

text \<open>\<^verbatim>\<open>generate_response_with_openai\<close>\<close>

definition generate_response_with_openai ::
  "backends \<Rightarrow> string \<Rightarrow> string \<Rightarrow> generation_error + string" where
  "generate_response_with_openai env user_prompt system_prompt =
     (case stheno env user_prompt system_prompt of
        CompletionFailed \<Rightarrow> Inl RequestError
      | CompletionNoChoices \<Rightarrow> Inl NoContent
      | CompletionContent content \<Rightarrow> Inr (strip content))"

definition max_wait_time :: nat where
  "max_wait_time = 60"

definition poll_interval :: nat where
  "poll_interval = 2"

text \<open>
  The polling loop of \<^verbatim>\<open>generate_response_with_fal_ai\<close>, from the value of
  \<^verbatim>\<open>waited_time\<close> on: the poll made at \<open>waited_time\<close> is poll number
  \<open>waited_time div poll_interval\<close>.
\<close>

function fal_poll :: "backends \<Rightarrow> string \<Rightarrow> nat \<Rightarrow> generation_error + string" where
  "fal_poll env request_id waited_time =
     (if waited_time < max_wait_time then
        (case fal_status env request_id (waited_time div poll_interval) of
           PollFailed \<Rightarrow> Inl RequestError
         | PollStatus status \<Rightarrow>
             if status = ''COMPLETED'' then
               (case fal_result env request_id of
                  FetchFailed \<Rightarrow> Inl RequestError
                | FetchError \<Rightarrow> Inl FalError
                | FetchOutput output \<Rightarrow> Inr (strip output))
             else if status = ''FAILED'' then Inl FalFailed
             else fal_poll env request_id (waited_time + poll_interval))
      else Inl FalTimedOut)"
  by pat_completeness auto
termination
  by (relation "measure (\<lambda>(env, request_id, waited_time). max_wait_time - waited_time)")
     (auto simp: max_wait_time_def poll_interval_def)

text \<open>\<^verbatim>\<open>generate_response_with_fal_ai\<close>\<close>

definition generate_response_with_fal_ai ::
  "backends \<Rightarrow> string \<Rightarrow> string \<Rightarrow> string \<Rightarrow> generation_error + string" where
  "generate_response_with_fal_ai env user_prompt system_prompt model =
     (case fal_submit env user_prompt system_prompt model of
        SubmitFailed \<Rightarrow> Inl RequestError
      | SubmitAccepted request_id \<Rightarrow> fal_poll env request_id 0)"

text \<open>
  The parts of \<^verbatim>\<open>generate_response_with_llm\<close>. \<open>cached\<close> is \<^verbatim>\<open>self.account\<close>, whose
  system prompt \<^verbatim>\<open>__init__\<close> stored as
  \<^verbatim>\<open>account.system_prompt or self.get_default_system_prompt()\<close>. The model and the
  system prompt come from the account just looked up, or from the cached one when the
  lookup returned \<^verbatim>\<open>None\<close>.
\<close>

definition llm_model :: "account option \<Rightarrow> account \<Rightarrow> string" where
  "llm_model latest_account cached =
     (case latest_account of
        Some latest \<Rightarrow> value_or (acc_llm latest) default_model
      | None \<Rightarrow> value_or (acc_llm cached) default_model)"

definition llm_system_prompt :: "account option \<Rightarrow> account \<Rightarrow> string" where
  "llm_system_prompt latest_account cached =
     (case latest_account of
        Some latest \<Rightarrow> value_or (acc_system_prompt latest) default_system_prompt
      | None \<Rightarrow> value_or (acc_system_prompt cached) default_system_prompt)"

definition llm_user_prompt :: "string \<Rightarrow> string \<Rightarrow> string \<Rightarrow> string" where
  "llm_user_prompt user_message user_handle context =
     (if context \<noteq> [] \<and> context \<noteq> start_of_conversation then
        context @ [CHR 0x0A, CHR 0x0A] @
        user_handle @ [CHR 0x27] @ ''s latest message: '' @ [CHR 0x22] @ user_message @ [CHR 0x22]
          @ [CHR 0x0A, CHR 0x0A] @
        ''Please respond naturally as if continuing this conversation:''
      else
        ''This is the start of your conversation with '' @ user_handle @ ''.'' @ [CHR 0x0A, CHR 0x0A] @
        user_handle @ '' just sent: '' @ [CHR 0x22] @ user_message @ [CHR 0x22] @ [CHR 0x0A, CHR 0x0A] @
        ''Please respond in a friendly, engaging way:'')"

text \<open>The body of the \<^verbatim>\<open>try\<close> of \<^verbatim>\<open>generate_response_with_llm\<close>, after the lookup.\<close>

definition generate_with_account ::
  "backends \<Rightarrow> account option \<Rightarrow> account \<Rightarrow> string \<Rightarrow> string \<Rightarrow> string
     \<Rightarrow> generation_error + string" where
  "generate_with_account env latest_account cached user_message user_handle context =
     (let model = llm_model latest_account cached;
          current_system_prompt = llm_system_prompt latest_account cached;
          user_prompt = llm_user_prompt user_message user_handle context
      in if model = ''stheno-nsfw''
         then generate_response_with_openai env user_prompt current_system_prompt
         else generate_response_with_fal_ai env user_prompt current_system_prompt model)"

definition generation_attempt ::
  "backends \<Rightarrow> account \<Rightarrow> string \<Rightarrow> string \<Rightarrow> string \<Rightarrow> generation_error + string" where
  "generation_attempt env cached user_message user_handle context =
     (case account_lookup env of
        LookupRaised \<Rightarrow> Inl LookupError
      | LookupNone \<Rightarrow> generate_with_account env None cached user_message user_handle context
      | LookupFound latest \<Rightarrow>
          generate_with_account env (Some latest) cached user_message user_handle context)"

text \<open>The string returned by the \<^verbatim>\<open>except Exception\<close> of \<^verbatim>\<open>generate_response_with_llm\<close>;
  it ends with the four bytes of U+1F495.\<close>

definition acknowledgement :: "string \<Rightarrow> string" where
  "acknowledgement user_handle =
     ''Thank you for your message, '' @ user_handle
       @ ''! I appreciate you reaching out. How are you doing today? ''
       @ [CHR 0xF0, CHR 0x9F, CHR 0x92, CHR 0x95]"

text \<open>\<^verbatim>\<open>generate_response_with_llm\<close>: the \<^verbatim>\<open>try\<close> with its \<^verbatim>\<open>except Exception\<close>.\<close>

definition generate_response_with_llm ::
  "backends \<Rightarrow> account \<Rightarrow> string \<Rightarrow> string \<Rightarrow> string \<Rightarrow> string" where
  "generate_response_with_llm env cached user_message user_handle context =
     (case generation_attempt env cached user_message user_handle context of
        Inl e \<Rightarrow> acknowledgement user_handle
      | Inr response \<Rightarrow> response)"

text \<open>The account found by the lookup, when it returned one.\<close>

definition latest_account :: "lookup \<Rightarrow> account option" where
  "latest_account l = (case l of LookupFound latest \<Rightarrow> Some latest | _ \<Rightarrow> None)"

text \<open>A status poll that neither completes nor fails the job: the loop sleeps and polls again.\<close>

definition poll_pending :: "poll \<Rightarrow> bool" where
  "poll_pending p =
     (case p of PollFailed \<Rightarrow> False
      | PollStatus status \<Rightarrow> status \<noteq> ''COMPLETED'' \<and> status \<noteq> ''FAILED'')"

section \<open>Dispatch and the monitoring cycle\<close>

text \<open>
  What the responder does to the outside is kept as a trace of effects, oldest first:
  a call of \<^verbatim>\<open>get_chat_messages\<close> for a subscriber with a limit, a POST of a text to a
  subscriber's chat, and a sleep of so many seconds.
\<close>

datatype effect = Fetched string nat | Posted string string | Slept nat

text \<open>How one POST to \<^verbatim>\<open>/chats/{uuid}/message\<close> ends: with a success status, with status
  429, with another error status (\<^verbatim>\<open>HTTPError\<close>), or with any other exception.\<close>

datatype send_outcome = SendOk | SendRateLimited | SendHttpError | SendException

text \<open>
  A subscriber as the subscriber list gives it: \<^verbatim>\<open>subscriber["uuid"]\<close> raises
  \<^verbatim>\<open>KeyError\<close> when the key is missing (\<open>None\<close>), \<^verbatim>\<open>subscriber.get("handle", "Unknown")\<close>
  does not.
\<close>

record subscriber =
  sub_uuid :: "string option"
  sub_handle :: "string option"

text \<open>
  The surroundings of one responder. Each answer may depend on everything done so
  far, so each is a function of the trace: the uuid \<^verbatim>\<open>get_current_user\<close> gives (empty
  when it fails), the list \<^verbatim>\<open>get_subscribers\<close> returns (empty when it fails), the list
  \<^verbatim>\<open>get_chat_messages\<close> returns for a subscriber and a limit (after its own retries;
  empty when it fails), the outcome of the next POST, and the generation backends.
  \<open>cached_account\<close> is the account the responder was constructed with.
\<close>

record environment =
  user_reply :: "effect list \<Rightarrow> string"
  subscribers_reply :: "effect list \<Rightarrow> subscriber list"
  chat_reply :: "effect list \<Rightarrow> string \<Rightarrow> nat \<Rightarrow> message list"
  send_reply :: "effect list \<Rightarrow> send_outcome"
  generation :: "effect list \<Rightarrow> backends"
  cached_account :: account

definition get_chat_messages ::
  "environment \<Rightarrow> string \<Rightarrow> nat \<Rightarrow> effect list \<Rightarrow> message list \<times> effect list" where
  "get_chat_messages env user_uuid limit tr =
     (chat_reply env tr user_uuid limit, tr @ [Fetched user_uuid limit])"

definition max_retries :: nat where
  "max_retries = 3"

text \<open>
  The \<^verbatim>\<open>while retry_count < max_retries\<close> loop of \<^verbatim>\<open>send_message\<close>, from the value of
  \<^verbatim>\<open>retry_count\<close> on. The result is the returned boolean and the trace.
\<close>

function send_loop ::
  "environment \<Rightarrow> string \<Rightarrow> string \<Rightarrow> nat \<Rightarrow> effect list \<Rightarrow> bool \<times> effect list" where
  "send_loop env user_uuid text retry_count tr =
     (if retry_count < max_retries then
        (case send_reply env tr of
           SendOk \<Rightarrow> (True, tr @ [Posted user_uuid text])
         | SendRateLimited \<Rightarrow>
             send_loop env user_uuid text (retry_count + 1) (tr @ [Posted user_uuid text, Slept 60])
         | SendHttpError \<Rightarrow> (False, tr @ [Posted user_uuid text])
         | SendException \<Rightarrow> (False, tr @ [Posted user_uuid text]))
      else (False, tr))"
  by pat_completeness auto
termination
  by (relation "measure (\<lambda>(env, user_uuid, text, retry_count, tr). max_retries - retry_count)")
     (auto simp: max_retries_def)

definition send_message ::
  "environment \<Rightarrow> string \<Rightarrow> string \<Rightarrow> effect list \<Rightarrow> bool \<times> effect list" where
  "send_message env user_uuid text tr = send_loop env user_uuid text 0 tr"

text \<open>
  The \<^verbatim>\<open>for message in new_messages\<close> loop of \<^verbatim>\<open>respond_to_messages\<close>. The result of
  \<^verbatim>\<open>send_message\<close> only chooses the line printed. The current user of these
  surroundings is an object, with the uuid \<open>user_reply\<close> gives.
\<close>

fun respond_loop ::
  "environment \<Rightarrow> string \<Rightarrow> string \<Rightarrow> message list \<Rightarrow> message list \<Rightarrow> effect list \<Rightarrow> effect list" where
  "respond_loop env user_uuid user_handle chat_history [] tr = tr"
| "respond_loop env user_uuid user_handle chat_history (message # rest) tr =
     (let message_text = msg_text message in
      if message_text = [] then respond_loop env user_uuid user_handle chat_history rest tr
      else
        let conversation_context =
              build_conversation_context (UserObject (user_reply env tr)) chat_history user_handle;
            response_text =
              generate_response_with_llm (generation env tr) (cached_account env)
                message_text user_handle conversation_context;
            (sent, tr1) = send_message env user_uuid response_text tr
        in respond_loop env user_uuid user_handle chat_history rest (tr1 @ [Slept 1]))"

definition respond_to_messages ::
  "environment \<Rightarrow> string \<Rightarrow> string \<Rightarrow> message list \<Rightarrow> effect list \<Rightarrow> effect list" where
  "respond_to_messages env user_uuid user_handle new_messages tr =
     (let (chat_history, tr1) = get_chat_messages env user_uuid 50 tr
      in respond_loop env user_uuid user_handle chat_history new_messages tr1)"

text \<open>
  The body of the \<^verbatim>\<open>for subscriber in subscribers\<close> loop of \<^verbatim>\<open>monitor_single_cycle\<close>,
  with its \<^verbatim>\<open>except Exception: continue\<close>, on the count, the responder's state and the
  trace. The \<^verbatim>\<open>KeyError\<close> of a subscriber without uuid is raised before anything is done
  and caught by the loop.
\<close>

definition process_subscriber ::
  "environment \<Rightarrow> subscriber \<Rightarrow> nat \<times> responder_state \<times> effect list
     \<Rightarrow> nat \<times> responder_state \<times> effect list" where
  "process_subscriber env subscriber acc =
     (case acc of (unanswered_message_count, st, tr) \<Rightarrow>
        (case sub_uuid subscriber of
           None \<Rightarrow> (unanswered_message_count, st, tr)
         | Some user_uuid \<Rightarrow>
             let user_handle = (case sub_handle subscriber of None \<Rightarrow> ''Unknown'' | Some h \<Rightarrow> h);
                 (messages, tr1) = get_chat_messages env user_uuid 20 tr;
                 (unanswered_messages, st1) =
                   check_for_unanswered_messages (user_reply env tr1) user_uuid messages st
             in if unanswered_messages \<noteq> [] then
                  (unanswered_message_count + length unanswered_messages, st1,
                   respond_to_messages env user_uuid user_handle unanswered_messages tr1)
                else (unanswered_message_count, st1, tr1)))"

text \<open>
  \<^verbatim>\<open>monitor_single_cycle\<close>: the returned count, the state (which \<^verbatim>\<open>save_state\<close> writes
  out) and the trace.
\<close>

definition monitor_single_cycle ::
  "environment \<Rightarrow> responder_state \<Rightarrow> effect list \<Rightarrow> nat \<times> responder_state \<times> effect list" where
  "monitor_single_cycle env st tr =
     (let subscribers = subscribers_reply env tr in
      if subscribers = [] then (0, st, tr)
      else fold (process_subscriber env) subscribers (0, st, tr))"

text \<open>The subscribers whose messages were fetched for resolution (limit 20), in order.\<close>

fun resolved_subscribers :: "effect list \<Rightarrow> string list" where
  "resolved_subscribers [] = []"
| "resolved_subscribers (Fetched user_uuid limit # tr) =
     (if limit = 20 then user_uuid # resolved_subscribers tr else resolved_subscribers tr)"
| "resolved_subscribers (Posted user_uuid text # tr) = resolved_subscribers tr"
| "resolved_subscribers (Slept seconds # tr) = resolved_subscribers tr"

text \<open>The uuids of the subscribers of a list that have one.\<close>

fun subscriber_uuids :: "subscriber list \<Rightarrow> string list" where
  "subscriber_uuids [] = []"
| "subscriber_uuids (s # ss) =
     (case sub_uuid s of None \<Rightarrow> subscriber_uuids ss | Some u \<Rightarrow> u # subscriber_uuids ss)"

text \<open>One rendered line of the context: the speaker's label, a colon and the stripped text.\<close>

definition render_line :: "string \<Rightarrow> string \<Rightarrow> message \<Rightarrow> string" where
  "render_line my_uuid user_handle m =
     (if msg_sender m = my_uuid then ''You'' else user_handle) @ '': '' @ strip (msg_text m)"

section \<open>Concrete messages and states used below\<close>

definition msg_hi :: message where
  "msg_hi = \<lparr>msg_uuid = ''1'', msg_sender = ''sub'', msg_sentAt = ''10:00'', msg_text = ''hi''\<rparr>"

definition msg_hello :: message where
  "msg_hello = \<lparr>msg_uuid = ''2'', msg_sender = ''op'', msg_sentAt = ''10:01'', msg_text = ''hello''\<rparr>"

definition msg_late :: message where
  "msg_late = \<lparr>msg_uuid = ''3'', msg_sender = ''sub'', msg_sentAt = ''10:05'', msg_text = ''you there?''\<rparr>"

text \<open>Two subscriber messages that carry no \<^verbatim>\<open>sentAt\<close>.\<close>

definition msg_undated1 :: message where
  "msg_undated1 = \<lparr>msg_uuid = ''1'', msg_sender = ''sub'', msg_sentAt = [], msg_text = ''hi''\<rparr>"

definition msg_undated2 :: message where
  "msg_undated2 = \<lparr>msg_uuid = ''2'', msg_sender = ''sub'', msg_sentAt = [], msg_text = ''hello''\<rparr>"

text \<open>A stored state whose set of processed ids holds exactly 1000 ids.\<close>

definition thousand_ids :: "string set" where
  "thousand_ids = (\<lambda>n. replicate n CHR ''x'') ` {1..1000}"

definition full_state :: responder_state where
  "full_state = \<lparr>last_message_timestamps = Map.empty, processed_messages = thousand_ids\<rparr>"

text \<open>
  Iterations of the monitor loop without shutdown or cancellation: a cycle whose body
  raises an exception, and a cycle that returns \<open>n\<close> processed messages.
\<close>

definition it_failed :: iteration where
  "it_failed = \<lparr>shutdown_set = False, body = BodyRaised, sleep_cancelled = False\<rparr>"

definition it_returned :: "nat \<Rightarrow> iteration" where
  "it_returned n = \<lparr>shutdown_set = False, body = BodyReturned n, sleep_cancelled = False\<rparr>"

text \<open>
  A burst of 21 messages of one subscriber, sent at 10:00, 10:01, ..., 10:20, with no
  reply of the operator between them: a single conversation turn.
\<close>

definition burst_message :: "string \<Rightarrow> message" where
  "burst_message t =
     \<lparr>msg_uuid = ''m'' @ t, msg_sender = ''sub'', msg_sentAt = ''10:'' @ t, msg_text = ''hey '' @ t\<rparr>"

definition burst :: "message list" where
  "burst = map burst_message
     [''00'', ''01'', ''02'', ''03'', ''04'', ''05'', ''06'', ''07'', ''08'', ''09'', ''10'',
      ''11'', ''12'', ''13'', ''14'', ''15'', ''16'', ''17'', ''18'', ''19'', ''20'']"


text \<open>An account without settings of its own.\<close>

definition plain_account :: account where
  "plain_account = \<lparr>acc_llm = None, acc_system_prompt = None\<rparr>"

text \<open>Backends whose job queue accepts every request and never finishes it.\<close>

definition stuck_backends :: backends where
  "stuck_backends =
     \<lparr>account_lookup = LookupNone,
      stheno = (\<lambda>user_prompt system_prompt. CompletionFailed),
      fal_submit = (\<lambda>user_prompt system_prompt model. SubmitAccepted ''r1''),
      fal_status = (\<lambda>request_id k. PollStatus ''IN_PROGRESS''),
      fal_result = (\<lambda>request_id. FetchFailed)\<rparr>"

text \<open>Backends of which every call fails.\<close>

definition down_backends :: backends where
  "down_backends =
     \<lparr>account_lookup = LookupRaised,
      stheno = (\<lambda>user_prompt system_prompt. CompletionFailed),
      fal_submit = (\<lambda>user_prompt system_prompt model. SubmitFailed),
      fal_status = (\<lambda>request_id k. PollFailed),
      fal_result = (\<lambda>request_id. FetchFailed)\<rparr>"

text \<open>
  Surroundings with two subscribers, each with one new message, in which every POST is
  answered with status 429.
\<close>

definition limited_env :: environment where
  "limited_env =
     \<lparr>user_reply = (\<lambda>tr. ''op''),
      subscribers_reply = (\<lambda>tr. [\<lparr>sub_uuid = Some ''a'', sub_handle = Some ''ann''\<rparr>,
                                   \<lparr>sub_uuid = Some ''b'', sub_handle = None\<rparr>]),
      chat_reply = (\<lambda>tr user_uuid limit.
         [\<lparr>msg_uuid = ''m-'' @ user_uuid, msg_sender = user_uuid,
           msg_sentAt = ''10:00'', msg_text = ''hi''\<rparr>]),
      send_reply = (\<lambda>tr. SendRateLimited),
      generation = (\<lambda>tr. down_backends),
      cached_account = plain_account\<rparr>"


section \<open>Properties of the resolution\<close>

lemma check_early_return:
  assumes "fetched = [] \<or> msg_sender (last (sort_key msg_sentAt fetched)) = my_uuid"
  shows "check_for_unanswered_messages my_uuid user_uuid fetched st = ([], st)"
  using assms by (auto simp: check_for_unanswered_messages_def Let_def)

lemma check_timestamp_late:
  assumes "fetched \<noteq> []" "msg_sender (last (sort_key msg_sentAt fetched)) \<noteq> my_uuid"
  shows "stored_timestamp (snd (check_for_unanswered_messages my_uuid user_uuid fetched st)) user_uuid
           = Max (set (map msg_sentAt fetched))"
  using assms
  by (simp add: check_for_unanswered_messages_def Let_def stored_timestamp_def split: prod.splits)

lemma check_processed_cases:
  "processed_messages (snd (check_for_unanswered_messages my_uuid user_uuid fetched st))
     = processed_messages st
   \<or> (\<exists>m \<in> set fetched.
        fst (check_for_unanswered_messages my_uuid user_uuid fetched st) = [m] \<and>
        processed_messages (snd (check_for_unanswered_messages my_uuid user_uuid fetched st))
          = insert (msg_uuid m) (processed_messages st))"
proof -
  let ?ms = "sort_key msg_sentAt fetched"
  let ?new = "filter (is_new_message my_uuid st (stored_timestamp st user_uuid)) ?ms"
  show ?thesis
  proof (cases "fetched \<noteq> [] \<and> msg_sender (last ?ms) \<noteq> my_uuid \<and> ?new \<noteq> []")
    case False
    then show ?thesis
      by (auto simp: check_for_unanswered_messages_def Let_def split: prod.splits)
  next
    case True
    then have "sort_key msg_sentAt ?new \<noteq> []" by (metis length_0_conv length_sort)
    then have "last (sort_key msg_sentAt ?new) \<in> set (sort_key msg_sentAt ?new)"
      by (rule last_in_set)
    then have "last (sort_key msg_sentAt ?new) \<in> set fetched" by auto
    with True show ?thesis
      by (auto simp: check_for_unanswered_messages_def Let_def split: prod.splits)
  qed
qed

lemma no_new_after_max:
  assumes "t \<noteq> []" "\<forall>m \<in> set ms. msg_sentAt m \<le> t"
  shows "filter (is_new_message my_uuid st t) ms = []"
  using assms by (auto simp: is_new_message_def filter_empty_conv)

lemmas strip_defs = strip_def lstrip.simps rstrip_rev.simps space1_def space2_def space3_def

lemmas eval_defs =
  check_for_unanswered_messages_def is_new_message_def stored_timestamp_def empty_state_def
  strip_defs Let_def

subsection \<open>The two early returns\<close>

text \<open>
  Claim C2. For every non-empty fetched history whose last message, after the stable
  sort by \<^verbatim>\<open>sentAt\<close>, has the operator as sender, resolution returns no target, whatever
  the state and whatever subscriber messages came earlier.
\<close>

theorem last_sender_operator_no_target:
  assumes "fetched \<noteq> []"
      and "msg_sender (last (sort_key msg_sentAt fetched)) = my_uuid"
  shows "fst (check_for_unanswered_messages my_uuid user_uuid fetched st) = []"
  using assms by (simp add: check_for_unanswered_messages_def Let_def)

theorem last_sender_operator_no_target_witness:
  "sort_key msg_sentAt [msg_hello, msg_hi] = [msg_hi, msg_hello] \<and>
   msg_sender (last (sort_key msg_sentAt [msg_hello, msg_hi])) = ''op'' \<and>
   fst (check_for_unanswered_messages ''op'' ''sub'' [msg_hello, msg_hi] empty_state) = []"
proof -
  have a: "[msg_hello, msg_hi] \<noteq> []" by simp
  have s: "sort_key msg_sentAt [msg_hello, msg_hi] = [msg_hi, msg_hello]"
    by (simp add: msg_hi_def msg_hello_def)
  have b: "msg_sender (last (sort_key msg_sentAt [msg_hello, msg_hi])) = ''op''"
    by (simp add: msg_hi_def msg_hello_def)
  from s b last_sender_operator_no_target [OF a b, of "''sub''" empty_state] show ?thesis by simp
qed

text \<open>
  Claim C10. When the fetched view is empty, or its last message in \<^verbatim>\<open>sentAt\<close> order is
  the operator's, the call returns no target and the responder's state is the one it
  started with: neither the timestamps nor the processed ids are touched.
\<close>

theorem early_return_state_unchanged:
  assumes "fetched = [] \<or> msg_sender (last (sort_key msg_sentAt fetched)) = my_uuid"
  shows "check_for_unanswered_messages my_uuid user_uuid fetched st = ([], st)"
  using assms by (auto simp: check_for_unanswered_messages_def Let_def)

theorem early_return_state_unchanged_witness:
  "check_for_unanswered_messages ''op'' ''sub'' [] full_state = ([], full_state) \<and>
   msg_sender (last (sort_key msg_sentAt [msg_hello, msg_hi])) = ''op'' \<and>
   check_for_unanswered_messages ''op'' ''sub'' [msg_hello, msg_hi] full_state = ([], full_state)"
proof -
  have b: "msg_sender (last (sort_key msg_sentAt [msg_hello, msg_hi])) = ''op''"
    by (simp add: msg_hi_def msg_hello_def)
  show ?thesis
    using early_return_state_unchanged [of "[]" "''op''" "''sub''" full_state]
      early_return_state_unchanged [of "[msg_hello, msg_hi]" "''op''" "''sub''" full_state] b
    by simp
qed

subsection \<open>The first scenario\<close>

text \<open>
  Claim C8. The history holding the single subscriber message with id 1, text "hi" and
  \<^verbatim>\<open>sentAt\<close> "10:00", resolved against the empty state, gives exactly that message as
  the target, and the state afterwards has "10:00" as the subscriber's timestamp and
  \<open>{1}\<close> as the processed ids. The operator's uuid is any uuid other than the
  subscriber's.
\<close>

theorem single_message_scenario:
  assumes "my_uuid \<noteq> subscriber"
  shows "check_for_unanswered_messages my_uuid subscriber
           [\<lparr>msg_uuid = ''1'', msg_sender = subscriber, msg_sentAt = ''10:00'', msg_text = ''hi''\<rparr>]
           empty_state
         = ([\<lparr>msg_uuid = ''1'', msg_sender = subscriber, msg_sentAt = ''10:00'', msg_text = ''hi''\<rparr>],
            \<lparr>last_message_timestamps = [subscriber \<mapsto> ''10:00''], processed_messages = {''1''}\<rparr>)"
  using assms by (simp add: eval_defs)

theorem single_message_scenario_witness:
  "''op'' \<noteq> ''sub'' \<and>
   check_for_unanswered_messages ''op'' ''sub'' [msg_hi] empty_state
     = ([msg_hi], \<lparr>last_message_timestamps = [''sub'' \<mapsto> ''10:00''], processed_messages = {''1''}\<rparr>)"
proof -
  have h: "''op'' \<noteq> ''sub''" by simp
  from single_message_scenario [OF h] h show ?thesis by (simp add: msg_hi_def)
qed

subsection \<open>Resolving the same history twice\<close>

text \<open>
  Claim C1 at its failing input: two subscriber messages without \<^verbatim>\<open>sentAt\<close>, resolved
  twice from the empty state. The first pass answers the second message and stores the
  empty string as the subscriber's timestamp; the guard
  \<^verbatim>\<open>if last_processed_timestamp and ...\<close> reads the stored empty string as no timestamp,
  so the second pass, on the same history, selects the first message.
\<close>

theorem resolve_twice_counterexample:
  "fst (check_for_unanswered_messages ''op'' ''sub'' [msg_undated1, msg_undated2]
         (snd (check_for_unanswered_messages ''op'' ''sub'' [msg_undated1, msg_undated2] empty_state)))
     = [msg_undated1]"
  by (simp add: eval_defs msg_undated1_def msg_undated2_def)

text \<open>
  Where some message of the history carries a non-empty \<^verbatim>\<open>sentAt\<close> and both calls
  have the same operator uuid, the second pass finds nothing: the stored timestamp is
  then a non-empty greatest \<^verbatim>\<open>sentAt\<close>, and no message is later than it.
\<close>

lemma resolve_twice_dated:
  assumes "\<exists>m \<in> set fetched. msg_sentAt m \<noteq> []"
  shows "fst (check_for_unanswered_messages my_uuid user_uuid fetched
            (snd (check_for_unanswered_messages my_uuid user_uuid fetched st))) = []"
proof (cases "fetched = [] \<or> msg_sender (last (sort_key msg_sentAt fetched)) = my_uuid")
  case True
  then show ?thesis by (simp add: check_early_return)
next
  case False
  let ?st' = "snd (check_for_unanswered_messages my_uuid user_uuid fetched st)"
  let ?M = "Max (set (map msg_sentAt fetched))"
  from False have ts: "stored_timestamp ?st' user_uuid = ?M"
    by (simp add: check_timestamp_late)
  have le: "\<forall>m \<in> set (sort_key msg_sentAt fetched). msg_sentAt m \<le> ?M"
    by (auto intro!: Max_ge)
  from assms obtain m where m: "m \<in> set fetched" "msg_sentAt m \<noteq> []" by blast
  then have "msg_sentAt m \<le> ?M" by (auto intro!: Max_ge)
  with m have "?M \<noteq> []" by (cases "msg_sentAt m") auto
  with le have "filter (is_new_message my_uuid ?st' ?M) (sort_key msg_sentAt fetched) = []"
    by (rule_tac no_new_after_max)
  with False ts show ?thesis
    by (simp add: check_for_unanswered_messages_def[of my_uuid user_uuid fetched ?st'] Let_def)
qed

subsection \<open>The stored timestamp across calls\<close>

lemma check_timestamp_early:
  assumes "fetched = [] \<or> msg_sender (last (sort_key msg_sentAt fetched)) = my_uuid"
  shows "stored_timestamp (snd (check_for_unanswered_messages my_uuid user_uuid fetched st)) user_uuid
           = stored_timestamp st user_uuid"
  using assms by (simp add: check_early_return)

lemma max_sentAt_ge_iff:
  assumes "fetched \<noteq> []"
  shows "t \<le> Max (set (map msg_sentAt fetched)) \<longleftrightarrow> (\<exists>m \<in> set fetched. t \<le> msg_sentAt m)"
proof -
  have "finite (set (map msg_sentAt fetched))" "set (map msg_sentAt fetched) \<noteq> {}"
    using assms by simp_all
  then have "t \<le> Max (set (map msg_sentAt fetched)) \<longleftrightarrow> (\<exists>a \<in> set (map msg_sentAt fetched). t \<le> a)"
    by (rule Max_ge_iff)
  then show ?thesis by auto
qed

text \<open>
  Claim C5, as stated, fails: the call overwrites the stored timestamp with the greatest
  \<^verbatim>\<open>sentAt\<close> of the view it fetched, without comparing it to the stored one. A first view
  holding a message of 10:05 followed by a second view holding only a message of 10:00
  leaves a smaller timestamp after the second call than after the first.
\<close>

theorem timestamp_monotone_counterexample:
  "stored_timestamp
     (snd (check_for_unanswered_messages ''op'' ''sub'' [msg_hi]
        (snd (check_for_unanswered_messages ''op'' ''sub'' [msg_late] empty_state)))) ''sub''
   < stored_timestamp (snd (check_for_unanswered_messages ''op'' ''sub'' [msg_late] empty_state)) ''sub''"
  by (simp add: eval_defs msg_hi_def msg_late_def)

text \<open>
  Claim C5, amended. For two consecutive resolution calls on one subscriber's
  conversation, with arbitrary views and states: a second call that returns early
  (empty view, or last message in \<^verbatim>\<open>sentAt\<close> order sent by the operator) leaves the
  stored timestamp as it was after the first call; a second call that does not return
  early stores the greatest \<^verbatim>\<open>sentAt\<close> of its own view, whatever was stored before;
  so the timestamp after the second call is greater than or equal to the timestamp after
  the first call if and only if the second call returns early or its view holds a
  message whose \<^verbatim>\<open>sentAt\<close> is at least the timestamp stored after the first call.
\<close>

theorem timestamp_after_second_call:
  assumes "st1 = snd (check_for_unanswered_messages my_uuid1 user_uuid fetched1 st)"
      and "st2 = snd (check_for_unanswered_messages my_uuid2 user_uuid fetched2 st1)"
  shows "(fetched2 = [] \<or> msg_sender (last (sort_key msg_sentAt fetched2)) = my_uuid2 \<longrightarrow>
            stored_timestamp st2 user_uuid = stored_timestamp st1 user_uuid) \<and>
         (fetched2 \<noteq> [] \<and> msg_sender (last (sort_key msg_sentAt fetched2)) \<noteq> my_uuid2 \<longrightarrow>
            stored_timestamp st2 user_uuid = Max (set (map msg_sentAt fetched2))) \<and>
         (stored_timestamp st1 user_uuid \<le> stored_timestamp st2 user_uuid \<longleftrightarrow>
            fetched2 = [] \<or> msg_sender (last (sort_key msg_sentAt fetched2)) = my_uuid2 \<or>
            (\<exists>m \<in> set fetched2. stored_timestamp st1 user_uuid \<le> msg_sentAt m))"
proof (cases "fetched2 = [] \<or> msg_sender (last (sort_key msg_sentAt fetched2)) = my_uuid2")
  case True
  then have "stored_timestamp st2 user_uuid = stored_timestamp st1 user_uuid"
    unfolding assms(2) by (rule check_timestamp_early)
  with True show ?thesis by auto
next
  case False
  then have ne: "fetched2 \<noteq> []" and op: "msg_sender (last (sort_key msg_sentAt fetched2)) \<noteq> my_uuid2"
    by simp_all
  have ts: "stored_timestamp st2 user_uuid = Max (set (map msg_sentAt fetched2))"
    unfolding assms(2) using ne op by (rule check_timestamp_late)
  have "stored_timestamp st1 user_uuid \<le> Max (set (map msg_sentAt fetched2)) \<longleftrightarrow>
          (\<exists>m \<in> set fetched2. stored_timestamp st1 user_uuid \<le> msg_sentAt m)"
    using ne by (rule max_sentAt_ge_iff)
  with ts ne op show ?thesis by simp
qed

theorem timestamp_after_second_call_witness:
  "stored_timestamp (snd (check_for_unanswered_messages ''op'' ''sub'' [msg_hi] empty_state)) ''sub''
     = ''10:00'' \<and>
   stored_timestamp
     (snd (check_for_unanswered_messages ''op'' ''sub'' [msg_hi, msg_late]
        (snd (check_for_unanswered_messages ''op'' ''sub'' [msg_hi] empty_state)))) ''sub''
     = ''10:05'' \<and>
   stored_timestamp
     (snd (check_for_unanswered_messages ''op'' ''sub'' [msg_hi, msg_hello]
        (snd (check_for_unanswered_messages ''op'' ''sub'' [msg_hi] empty_state)))) ''sub''
     = ''10:00'' \<and>
   \<not> stored_timestamp (snd (check_for_unanswered_messages ''op'' ''sub'' [msg_late] empty_state)) ''sub''
       \<le> stored_timestamp
           (snd (check_for_unanswered_messages ''op'' ''sub'' [msg_hi]
              (snd (check_for_unanswered_messages ''op'' ''sub'' [msg_late] empty_state)))) ''sub''"
proof -
  let ?st1 = "snd (check_for_unanswered_messages ''op'' ''sub'' [msg_hi] empty_state)"
  let ?st1' = "snd (check_for_unanswered_messages ''op'' ''sub'' [msg_late] empty_state)"
  have t1: "stored_timestamp ?st1 ''sub'' = ''10:00''"
    by (simp add: eval_defs msg_hi_def)
  have t1': "stored_timestamp ?st1' ''sub'' = ''10:05''"
    by (simp add: eval_defs msg_late_def)
  have late: "[msg_hi, msg_late] \<noteq> [] \<and> msg_sender (last (sort_key msg_sentAt [msg_hi, msg_late])) \<noteq> ''op''"
    by (simp add: msg_hi_def msg_late_def)
  have mx: "Max (set (map msg_sentAt [msg_hi, msg_late])) = ''10:05''"
    by (simp add: msg_hi_def msg_late_def)
  have early: "msg_sender (last (sort_key msg_sentAt [msg_hi, msg_hello])) = ''op''"
    by (simp add: msg_hi_def msg_hello_def)
  have single: "[msg_hi] \<noteq> [] \<and> msg_sender (last (sort_key msg_sentAt [msg_hi])) \<noteq> ''op''"
    by (simp add: msg_hi_def)
  have older: "\<not> (\<exists>m \<in> set [msg_hi]. ''10:05'' \<le> msg_sentAt m)"
    by (simp add: msg_hi_def)
  from timestamp_after_second_call
         [OF refl refl, where ?my_uuid1.0 = "''op''" and ?my_uuid2.0 = "''op''" and user_uuid = "''sub''"
            and ?fetched1.0 = "[msg_hi]" and ?fetched2.0 = "[msg_hi, msg_late]" and st = empty_state]
    late mx
  have a: "stored_timestamp (snd (check_for_unanswered_messages ''op'' ''sub'' [msg_hi, msg_late] ?st1)) ''sub''
             = ''10:05''"
    by simp
  from timestamp_after_second_call
         [OF refl refl, where ?my_uuid1.0 = "''op''" and ?my_uuid2.0 = "''op''" and user_uuid = "''sub''"
            and ?fetched1.0 = "[msg_hi]" and ?fetched2.0 = "[msg_hi, msg_hello]" and st = empty_state]
    early t1
  have b: "stored_timestamp (snd (check_for_unanswered_messages ''op'' ''sub'' [msg_hi, msg_hello] ?st1)) ''sub''
             = ''10:00''"
    by simp
  from timestamp_after_second_call
         [OF refl refl, where ?my_uuid1.0 = "''op''" and ?my_uuid2.0 = "''op''" and user_uuid = "''sub''"
            and ?fetched1.0 = "[msg_late]" and ?fetched2.0 = "[msg_hi]" and st = empty_state]
    single older t1'
  have c: "\<not> stored_timestamp ?st1' ''sub''
       \<le> stored_timestamp (snd (check_for_unanswered_messages ''op'' ''sub'' [msg_hi] ?st1')) ''sub''"
    by simp
  from t1 a b c show ?thesis by blast
qed

subsection \<open>The size of the set of processed ids\<close>

lemma card_thousand_ids: "card thousand_ids = 1000"
proof -
  have "inj_on (\<lambda>n. replicate n CHR ''x'') {1..1000::nat}"
    by (rule inj_onI) (metis length_replicate)
  then have "card thousand_ids = card {1..1000::nat}"
    unfolding thousand_ids_def by (rule card_image)
  then show ?thesis by simp
qed

lemma finite_thousand_ids: "finite thousand_ids"
  by (simp add: thousand_ids_def)

lemma one_notin_thousand_ids: "''1'' \<notin> thousand_ids"
proof
  assume "''1'' \<in> thousand_ids"
  then obtain n where "replicate n CHR ''x'' = ''1''" "n \<in> {1..1000}"
    by (auto simp: thousand_ids_def)
  then show False by (cases n) auto
qed

lemma responder_init_full_state: "responder_init set_to_list (Some full_state) = full_state"
  by (simp add: responder_init_def cleanup_old_processed_messages_def full_state_def card_thousand_ids)

lemma cleanup_bound: "card (processed_messages (cleanup_old_processed_messages set_to_list st)) \<le> 1000"
proof (cases "card (processed_messages st) > 1000")
  case False
  then show ?thesis by (simp add: cleanup_old_processed_messages_def)
next
  case True
  let ?l = "set_to_list (processed_messages st)"
  have "card (set (drop (length ?l - 1000) ?l)) \<le> length (drop (length ?l - 1000) ?l)"
    by (rule card_length)
  also have "\<dots> \<le> 1000" by simp
  finally show ?thesis using True by (simp add: cleanup_old_processed_messages_def Let_def)
qed

lemma check_processed_mono:
  "processed_messages st
     \<subseteq> processed_messages (snd (check_for_unanswered_messages my_uuid user_uuid fetched st))"
  using check_processed_cases [of my_uuid user_uuid fetched st] by auto

lemma check_processed_card:
  "card (processed_messages (snd (check_for_unanswered_messages my_uuid user_uuid fetched st)))
     \<le> Suc (card (processed_messages st))"
  using check_processed_cases [of my_uuid user_uuid fetched st]
  by (auto simp: card_insert_le_m1 card_insert_if card.infinite)

lemma passes_processed_mono:
  "processed_messages st \<subseteq> processed_messages (resolution_passes passes st)"
proof (induction passes arbitrary: st)
  case Nil
  then show ?case by simp
next
  case (Cons p passes)
  obtain my u f where p: "p = (my, u, f)" by (cases p)
  show ?case using Cons.IH check_processed_mono unfolding p
    by (metis resolution_passes.simps(2) subset_trans)
qed

lemma passes_processed_card:
  "card (processed_messages (resolution_passes passes st)) \<le> card (processed_messages st) + length passes"
proof (induction passes arbitrary: st)
  case Nil
  then show ?case by simp
next
  case (Cons p passes)
  obtain my u f where p: "p = (my, u, f)" by (cases p)
  have "card (processed_messages (resolution_passes (p # passes) st))
          \<le> card (processed_messages (snd (check_for_unanswered_messages my u f st))) + length passes"
    unfolding p by (simp add: Cons.IH)
  also have "\<dots> \<le> Suc (card (processed_messages st)) + length passes"
    using check_processed_card [of my u f st] by simp
  finally show ?case by simp
qed

text \<open>
  Claim C4, as stated, fails: \<^verbatim>\<open>cleanup_old_processed_messages\<close> runs once, in
  \<^verbatim>\<open>__init__\<close>, and only when the set holds more than 1000 ids; no resolution pass
  evicts anything. A responder started on a stored state of exactly 1000 ids holds 1001
  ids after one pass that selects a new message.
\<close>

theorem processed_bound_counterexample:
  "card (processed_messages
      (resolution_passes [(''op'', ''sub'', [msg_hi])] (responder_init sorted_list_of_set (Some full_state))))
   = 1001"
proof -
  have "processed_messages
      (resolution_passes [(''op'', ''sub'', [msg_hi])] (responder_init sorted_list_of_set (Some full_state)))
     = insert ''1'' thousand_ids"
    using one_notin_thousand_ids
    by (simp add: responder_init_full_state) (simp add: eval_defs msg_hi_def full_state_def)
  then show ?thesis
    by (simp add: finite_thousand_ids one_notin_thousand_ids card_thousand_ids)
qed

text \<open>
  Claim C4, amended. The set of processed ids is cut down to at most 1000 entries when
  the responder is constructed, and only then: a resolution pass removes no id and adds
  at most one, so after \<open>n\<close> passes the set holds every id it held at start-up and at
  most \<open>1000 + n\<close> ids. (Which ids the start-up trim keeps follows the iteration
  order of the set and is not stated.)
\<close>

theorem processed_bound_at_start_only:
  "card (processed_messages (responder_init set_to_list stored)) \<le> 1000 \<and>
   processed_messages (responder_init set_to_list stored)
     \<subseteq> processed_messages (resolution_passes passes (responder_init set_to_list stored)) \<and>
   card (processed_messages (resolution_passes passes (responder_init set_to_list stored)))
     \<le> 1000 + length passes"
proof -
  have a: "card (processed_messages (responder_init set_to_list stored)) \<le> 1000"
    unfolding responder_init_def by (rule cleanup_bound)
  have "card (processed_messages (resolution_passes passes (responder_init set_to_list stored)))
          \<le> card (processed_messages (responder_init set_to_list stored)) + length passes"
    by (rule passes_processed_card)
  with a show ?thesis by (simp add: passes_processed_mono)
qed

theorem processed_bound_at_start_only_witness:
  "card (processed_messages (responder_init sorted_list_of_set None)) \<le> 1000 \<and>
   processed_messages (resolution_passes [(''op'', ''sub'', [msg_hi])] (responder_init sorted_list_of_set None))
     = {''1''} \<and>
   card (processed_messages
      (resolution_passes [(''op'', ''sub'', [msg_hi])] (responder_init sorted_list_of_set None)))
     \<le> 1000 + length [(''op'', ''sub'', [msg_hi])]"
proof -
  have "processed_messages
      (resolution_passes [(''op'', ''sub'', [msg_hi])] (responder_init sorted_list_of_set None)) = {''1''}"
    by (simp add: responder_init_def cleanup_old_processed_messages_def eval_defs msg_hi_def)
  with processed_bound_at_start_only [of sorted_list_of_set None "[(''op'', ''sub'', [msg_hi])]"]
  show ?thesis by simp
qed

section \<open>Properties of the account monitor\<close>

lemmas monitor_defs = monitor_iteration_def monitor_after_cycle_def single_cycle_result_def
  monitor_start_def max_consecutive_errors_def it_failed_def it_returned_def Let_def

lemma single_cycle_never_raises: "single_cycle_result b \<noteq> Raised"
  by (simp add: single_cycle_result_def split: cycle_body.splits)

text \<open>
  The reset of the loop is under \<^verbatim>\<open>if message_count > 0\<close>: a returned count resets the
  counter exactly when it is positive.
\<close>

lemma returned_count_resets_when_positive:
  "consecutive_errors (monitor_after_cycle (Returned n) cancelled_in_sleep m)
     = (if n > 0 then 0 else consecutive_errors m)"
  by (simp add: monitor_after_cycle_def Let_def)

text \<open>
  Whatever the bodies of the cycles do, the counter of a fresh monitor stays 0: no
  iteration reaches the \<^verbatim>\<open>except Exception\<close> branch of the loop.
\<close>

lemma monitor_iteration_counter_zero:
  "consecutive_errors m = 0 \<Longrightarrow> consecutive_errors (monitor_iteration it m) = 0"
  by (simp add: monitor_iteration_def monitor_after_cycle_def single_cycle_result_def Let_def
        split: cycle_body.splits)

lemma monitor_counter_stays_zero:
  "consecutive_errors m = 0 \<Longrightarrow> consecutive_errors (monitor_account_continuously its m) = 0"
  by (induction its arbitrary: m) (auto simp: monitor_iteration_counter_zero)

text \<open>
  Without shutdown and cancellation the monitor runs every cycle of any run of
  iterations, however many of their bodies raise.
\<close>

lemma monitor_runs_on:
  assumes "\<forall>it \<in> set its. \<not> shutdown_set it \<and> \<not> sleep_cancelled it \<and> body it \<noteq> BodyCancelled"
      and "running m" and "consecutive_errors m = 0"
  shows "running (monitor_account_continuously its m) \<and>
         cycles (monitor_account_continuously its m) = cycles m + length its"
  using assms
proof (induction its arbitrary: m)
  case Nil
  then show ?case by simp
next
  case (Cons it its)
  let ?m' = "monitor_iteration it m"
  from Cons.prems(1) have it: "\<not> shutdown_set it" "\<not> sleep_cancelled it" "body it \<noteq> BodyCancelled"
    by auto
  then have r: "running ?m'" and c: "cycles ?m' = cycles m + 1"
    using Cons.prems(2)
    by (auto simp: monitor_iteration_def monitor_after_cycle_def single_cycle_result_def Let_def
          split: cycle_body.splits)
  have z: "consecutive_errors ?m' = 0"
    using Cons.prems(3) by (rule monitor_iteration_counter_zero)
  have "running (monitor_account_continuously its ?m') \<and>
        cycles (monitor_account_continuously its ?m') = cycles ?m' + length its"
    using Cons.prems(1) r z by (intro Cons.IH) auto
  with Cons.prems(2) c show ?case by simp
qed

text \<open>
  Claim C3 at its failing input: five iterations in a row whose cycle raises an
  exception, from a fresh monitor, with no shutdown and no cancellation. Each exception
  is caught inside \<^verbatim>\<open>monitor_single_cycle\<close>, which returns 0, so the loop never counts
  it: after the five cycles the counter is 0 and the monitor is running, and a sixth
  cycle is run.
\<close>

theorem failing_cycles_do_not_stop_monitor:
  "running (monitor_account_continuously (replicate 5 it_failed) monitor_start) \<and>
   consecutive_errors (monitor_account_continuously (replicate 5 it_failed) monitor_start) = 0 \<and>
   cycles (monitor_account_continuously (replicate 5 it_failed) monitor_start) = 5 \<and>
   cycles (monitor_account_continuously (replicate 5 it_failed @ [it_failed]) monitor_start) = 6"
  by (simp add: monitor_defs numeral_eq_Suc)

section \<open>Properties of the conversation context\<close>

lemma sort_burst: "sort_key msg_sentAt burst = burst"
  by (simp add: burst_def burst_message_def)

lemma turns_burst: "spec_turns burst = [burst]"
  by (simp add: burst_def burst_message_def)

lemma conversation_lines_eq:
  "conversation_lines my_uuid user_handle ms
     = map (render_line my_uuid user_handle) (filter (\<lambda>m. strip (msg_text m) \<noteq> []) ms)"
  by (induction ms) (auto simp: render_line_def Let_def)

lemma recent_messages_suffix:
  "\<exists>older. sort_key msg_sentAt chat_history = older @ recent_messages chat_history"
proof -
  let ?s = "sort_key msg_sentAt chat_history"
  have "?s = take (length ?s - 20) ?s @ drop (length ?s - 20) ?s" by simp
  then show ?thesis
    by (cases "length ?s > 20") (auto simp: recent_messages_def Let_def simp del: append_take_drop_id)
qed

lemma recent_messages_length:
  "length (recent_messages chat_history) = min 20 (length chat_history)"
  by (auto simp: recent_messages_def Let_def)

lemma recent_messages_sorted: "sorted (map msg_sentAt (recent_messages chat_history))"
proof -
  have "sorted (map msg_sentAt (sort_key msg_sentAt chat_history))" by (rule sorted_sort_key)
  then show ?thesis
    by (auto simp: recent_messages_def Let_def drop_map[symmetric] sorted_wrt_drop)
qed

lemma spec_turns_length: "length (spec_turns ms) \<le> length ms"
proof (induction ms rule: spec_turns.induct)
  case 1
  then show ?case by simp
next
  case (2 m ms)
  have "length (dropWhile (\<lambda>x. msg_sender x = msg_sender m) ms) \<le> length ms"
    by (rule length_dropWhile_le)
  with 2 show ?case by simp
qed

lemma build_context_object:
  "build_conversation_context (UserObject my_uuid) chat_history user_handle
     = (if conversation_lines my_uuid user_handle (recent_messages chat_history) = []
        then start_of_conversation
        else ''Conversation history:'' @ [CHR 0x0A]
               @ join [CHR 0x0A] (conversation_lines my_uuid user_handle (recent_messages chat_history)))"
  by (auto simp: build_conversation_context_def Let_def recent_messages_def)

text \<open>
  Claim C9, as stated, fails: the cap counts messages, not turns
  (\<^verbatim>\<open>sorted_messages[-20:]\<close>). A burst of 21 messages of one subscriber is a single
  turn, so a cap at the last 20 turns keeps all 21 lines; the context built by the code
  has 20 lines and differs from the rendering capped by turns.
\<close>

theorem context_cap_counterexample:
  "length (spec_turns (sort_key msg_sentAt burst)) = 1 \<and>
   length (spec_context_lines ''op'' ''fan'' burst) = 21 \<and>
   length (conversation_lines ''op'' ''fan'' (recent_messages burst)) = 20 \<and>
   build_conversation_context (UserObject ''op'') burst ''fan''
     \<noteq> ''Conversation history:'' @ [CHR 0x0A] @ join [CHR 0x0A] (spec_context_lines ''op'' ''fan'' burst)"
proof -
  have a: "length (spec_turns (sort_key msg_sentAt burst)) = 1"
    by (simp add: sort_burst turns_burst)
  have b: "spec_context_lines ''op'' ''fan'' burst = conversation_lines ''op'' ''fan'' burst"
    by (simp add: spec_context_lines_def spec_last_turns_def sort_burst turns_burst)
  have c: "length (conversation_lines ''op'' ''fan'' burst) = 21"
    by (simp add: burst_def burst_message_def strip_defs)
  have d: "length (conversation_lines ''op'' ''fan'' (recent_messages burst)) = 20"
    by (simp add: recent_messages_def sort_burst) (simp add: burst_def burst_message_def strip_defs)
  have e: "build_conversation_context (UserObject ''op'') burst ''fan''
     \<noteq> ''Conversation history:'' @ [CHR 0x0A] @ join [CHR 0x0A] (conversation_lines ''op'' ''fan'' burst)"
    by (simp add: build_conversation_context_def recent_messages_def sort_burst)
       (simp add: burst_def burst_message_def strip_defs)
  from a b c d e show ?thesis by simp
qed

text \<open>
  Claim C9, amended. For every chat history, the context is built from the last 20
  messages of the history sorted ascending by \<^verbatim>\<open>sentAt\<close>, all of them when there are
  at most 20, so from messages of at most 20 conversation turns. When the current user
  is an object, these messages are rendered oldest first, one line for each message
  whose text stripped of whitespace is not empty, labelled \<^verbatim>\<open>You\<close> when its sender is
  the operator's uuid and with the subscriber's handle otherwise; the lines, joined by
  line feeds, follow the header line \<^verbatim>\<open>Conversation history:\<close>, and when there is no
  line the context is the start-of-conversation sentence. When the current user is no
  object, the context is the start-of-conversation sentence for the empty history and
  the context-unavailable sentence otherwise.
\<close>

theorem context_last_twenty_messages:
  "(\<exists>older. sort_key msg_sentAt chat_history = older @ recent_messages chat_history) \<and>
   length (recent_messages chat_history) = min 20 (length chat_history) \<and>
   length (spec_turns (recent_messages chat_history)) \<le> 20 \<and>
   sorted (map msg_sentAt (recent_messages chat_history)) \<and>
   conversation_lines my_uuid user_handle (recent_messages chat_history)
     = map (render_line my_uuid user_handle)
         (filter (\<lambda>m. strip (msg_text m) \<noteq> []) (recent_messages chat_history)) \<and>
   build_conversation_context (UserObject my_uuid) chat_history user_handle
     = (if conversation_lines my_uuid user_handle (recent_messages chat_history) = []
        then ''This is the start of your conversation.''
        else ''Conversation history:'' @ [CHR 0x0A]
               @ join [CHR 0x0A] (conversation_lines my_uuid user_handle (recent_messages chat_history))) \<and>
   build_conversation_context UserNotObject chat_history user_handle
     = (if chat_history = [] then ''This is the start of your conversation.''
        else ''Previous conversation context unavailable.'')"
proof -
  have t: "length (spec_turns (recent_messages chat_history)) \<le> 20"
    using spec_turns_length [of "recent_messages chat_history"]
    by (simp add: recent_messages_length)
  have u: "build_conversation_context UserNotObject chat_history user_handle
     = (if chat_history = [] then ''This is the start of your conversation.''
        else ''Previous conversation context unavailable.'')"
    by (simp add: build_conversation_context_def start_of_conversation_def context_unavailable_def)
  have o: "build_conversation_context (UserObject my_uuid) chat_history user_handle
     = (if conversation_lines my_uuid user_handle (recent_messages chat_history) = []
        then ''This is the start of your conversation.''
        else ''Conversation history:'' @ [CHR 0x0A]
               @ join [CHR 0x0A] (conversation_lines my_uuid user_handle (recent_messages chat_history)))"
    by (simp only: build_context_object start_of_conversation_def)
  from t u o show ?thesis
    using recent_messages_suffix recent_messages_length recent_messages_sorted conversation_lines_eq
    by blast
qed

theorem context_last_twenty_messages_witness:
  "recent_messages [msg_hello, msg_hi] = [msg_hi, msg_hello] \<and>
   conversation_lines ''op'' ''fan'' (recent_messages [msg_hello, msg_hi]) = [''fan: hi'', ''You: hello''] \<and>
   build_conversation_context (UserObject ''op'') [msg_hello, msg_hi] ''fan''
     = ''Conversation history:'' @ [CHR 0x0A] @ ''fan: hi'' @ [CHR 0x0A] @ ''You: hello'' \<and>
   build_conversation_context UserNotObject [msg_hello, msg_hi] ''fan''
     = ''Previous conversation context unavailable.''"
proof -
  have r: "recent_messages [msg_hello, msg_hi] = [msg_hi, msg_hello]"
    by (simp add: recent_messages_def msg_hi_def msg_hello_def)
  have l: "map (render_line ''op'' ''fan'') (filter (\<lambda>m. strip (msg_text m) \<noteq> []) [msg_hi, msg_hello])
             = [''fan: hi'', ''You: hello'']"
    by (simp add: render_line_def msg_hi_def msg_hello_def strip_defs)
  from context_last_twenty_messages [of "[msg_hello, msg_hi]" "''op''" "''fan''"] r l
  show ?thesis by simp
qed

section \<open>Properties of reply generation\<close>

declare fal_poll.simps [simp del]

lemma fal_poll_timeout:
  assumes "\<forall>k. waited_time div poll_interval \<le> k \<and> k < 30 \<longrightarrow> poll_pending (fal_status env request_id k)"
  shows "fal_poll env request_id waited_time = Inl FalTimedOut"
  using assms
proof (induction env request_id waited_time rule: fal_poll.induct)
  case (1 env request_id waited_time)
  show ?case
  proof (cases "waited_time < max_wait_time")
    case False
    then show ?thesis by (subst fal_poll.simps) simp
  next
    case True
    then have k: "waited_time div poll_interval < 30"
      by (simp add: max_wait_time_def poll_interval_def)
    with "1.prems" have "poll_pending (fal_status env request_id (waited_time div poll_interval))"
      by blast
    then obtain status where st: "fal_status env request_id (waited_time div poll_interval) = PollStatus status"
      "status \<noteq> ''COMPLETED''" "status \<noteq> ''FAILED''"
      by (auto simp: poll_pending_def split: poll.splits)
    have "fal_poll env request_id (waited_time + poll_interval) = Inl FalTimedOut"
    proof (rule "1.IH" [OF True st(1) st(2) st(3)])
      show "\<forall>k. (waited_time + poll_interval) div poll_interval \<le> k \<and> k < 30
              \<longrightarrow> poll_pending (fal_status env request_id k)"
        using "1.prems" by (auto simp: poll_interval_def)
    qed
    with True st show ?thesis by (subst fal_poll.simps) simp
  qed
qed

lemma fal_poll_failed:
  assumes "waited_time div poll_interval \<le> k" "k < 30"
      and "\<forall>j. waited_time div poll_interval \<le> j \<and> j < k \<longrightarrow> poll_pending (fal_status env request_id j)"
      and "fal_status env request_id k = PollStatus ''FAILED''"
  shows "fal_poll env request_id waited_time = Inl FalFailed"
  using assms
proof (induction env request_id waited_time rule: fal_poll.induct)
  case (1 env request_id waited_time)
  from "1.prems"(1,2) have lt: "waited_time < max_wait_time"
    by (simp add: max_wait_time_def poll_interval_def)
  show ?case
  proof (cases "waited_time div poll_interval = k")
    case True
    with lt "1.prems"(4) show ?thesis by (subst fal_poll.simps) simp
  next
    case False
    with "1.prems"(1) have less: "waited_time div poll_interval < k" by simp
    with "1.prems"(3) have "poll_pending (fal_status env request_id (waited_time div poll_interval))"
      by blast
    then obtain status where st: "fal_status env request_id (waited_time div poll_interval) = PollStatus status"
      "status \<noteq> ''COMPLETED''" "status \<noteq> ''FAILED''"
      by (auto simp: poll_pending_def split: poll.splits)
    have "fal_poll env request_id (waited_time + poll_interval) = Inl FalFailed"
    proof (rule "1.IH" [OF lt st(1) st(2) st(3)])
      show "(waited_time + poll_interval) div poll_interval \<le> k"
        using less by (simp add: poll_interval_def)
      show "k < 30" by (rule "1.prems"(2))
      show "\<forall>j. (waited_time + poll_interval) div poll_interval \<le> j \<and> j < k
              \<longrightarrow> poll_pending (fal_status env request_id j)"
        using "1.prems"(3) by (auto simp: poll_interval_def)
      show "fal_status env request_id k = PollStatus ''FAILED''" by (rule "1.prems"(4))
    qed
    with lt st show ?thesis by (subst fal_poll.simps) simp
  qed
qed

lemma generation_attempt_latest:
  "account_lookup env \<noteq> LookupRaised \<Longrightarrow>
   generation_attempt env cached user_message user_handle ctx
     = generate_with_account env (latest_account (account_lookup env)) cached user_message user_handle ctx"
  by (simp add: generation_attempt_def latest_account_def split: lookup.splits)

text \<open>
  Claim C7. With the model, the system prompt and the user prompt the generator
  computes: when the account lookup raises, or the job-queue backend is selected and
  the submit fails, or every one of the 30 polls of the 60 seconds finds the job
  pending (poll timeout), or a poll after pending ones reports \<^verbatim>\<open>FAILED\<close>, or the
  attempt raises any exception at all, \<^verbatim>\<open>generate_response_with_llm\<close> returns the fixed
  acknowledgement built around the subscriber's handle. It returns a string in every
  case: no exception reaches its caller.
\<close>

theorem generation_failure_acknowledged:
  assumes model: "model = llm_model (latest_account (account_lookup env)) cached"
      and system_prompt: "system_prompt = llm_system_prompt (latest_account (account_lookup env)) cached"
      and user_prompt: "user_prompt = llm_user_prompt user_message user_handle ctx"
      and failure:
        "account_lookup env = LookupRaised
         \<or> (model \<noteq> ''stheno-nsfw'' \<and> fal_submit env user_prompt system_prompt model = SubmitFailed)
         \<or> (model \<noteq> ''stheno-nsfw'' \<and> fal_submit env user_prompt system_prompt model = SubmitAccepted request_id
              \<and> (\<forall>k < 30. poll_pending (fal_status env request_id k)))
         \<or> (model \<noteq> ''stheno-nsfw'' \<and> fal_submit env user_prompt system_prompt model = SubmitAccepted request_id
              \<and> k < 30 \<and> (\<forall>j < k. poll_pending (fal_status env request_id j))
              \<and> fal_status env request_id k = PollStatus ''FAILED'')
         \<or> generation_attempt env cached user_message user_handle ctx = Inl e"
  shows "generate_response_with_llm env cached user_message user_handle ctx
           = ''Thank you for your message, '' @ user_handle
               @ ''! I appreciate you reaching out. How are you doing today? ''
               @ [CHR 0xF0, CHR 0x9F, CHR 0x92, CHR 0x95]"
proof -
  have "\<exists>e. generation_attempt env cached user_message user_handle ctx = Inl e"
  proof (cases "account_lookup env = LookupRaised")
    case True
    then show ?thesis by (simp add: generation_attempt_def)
  next
    case False
    note att = generation_attempt_latest [OF False, of cached user_message user_handle ctx]
    from failure False consider
        (submit) "model \<noteq> ''stheno-nsfw''" "fal_submit env user_prompt system_prompt model = SubmitFailed"
      | (timeout) "model \<noteq> ''stheno-nsfw''"
          "fal_submit env user_prompt system_prompt model = SubmitAccepted request_id"
          "\<forall>k < 30. poll_pending (fal_status env request_id k)"
      | (failed) "model \<noteq> ''stheno-nsfw''"
          "fal_submit env user_prompt system_prompt model = SubmitAccepted request_id"
          "k < 30" "\<forall>j < k. poll_pending (fal_status env request_id j)"
          "fal_status env request_id k = PollStatus ''FAILED''"
      | (raised) "generation_attempt env cached user_message user_handle ctx = Inl e"
      by blast
    then show ?thesis
    proof cases
      case submit
      then show ?thesis
        using model system_prompt user_prompt
        by (simp add: att generate_with_account_def Let_def generate_response_with_fal_ai_def)
    next
      case timeout
      have "fal_poll env request_id 0 = Inl FalTimedOut"
        by (rule fal_poll_timeout) (use timeout(3) in auto)
      with timeout(1,2) show ?thesis
        using model system_prompt user_prompt
        by (simp add: att generate_with_account_def Let_def generate_response_with_fal_ai_def)
    next
      case failed
      have "fal_poll env request_id 0 = Inl FalFailed"
        by (rule fal_poll_failed [where k = k]) (use failed in auto)
      with failed(1,2) show ?thesis
        using model system_prompt user_prompt
        by (simp add: att generate_with_account_def Let_def generate_response_with_fal_ai_def)
    next
      case raised
      then show ?thesis by blast
    qed
  qed
  then show ?thesis by (auto simp: generate_response_with_llm_def acknowledgement_def)
qed

theorem generation_failure_acknowledged_witness:
  "llm_model (latest_account (account_lookup stuck_backends)) plain_account = ''google/gemini-2.0-flash-001'' \<and>
   fal_submit stuck_backends (llm_user_prompt ''hi'' ''fan'' [])
      (llm_system_prompt (latest_account (account_lookup stuck_backends)) plain_account)
      (llm_model (latest_account (account_lookup stuck_backends)) plain_account) = SubmitAccepted ''r1'' \<and>
   list_all (\<lambda>k. poll_pending (fal_status stuck_backends ''r1'' k)) [0..<30] \<and>
   generate_response_with_llm stuck_backends plain_account ''hi'' ''fan'' []
     = ''Thank you for your message, fan! I appreciate you reaching out. How are you doing today? ''
         @ [CHR 0xF0, CHR 0x9F, CHR 0x92, CHR 0x95] \<and>
   account_lookup down_backends = LookupRaised \<and>
   generate_response_with_llm down_backends plain_account ''hi'' ''fan'' []
     = ''Thank you for your message, fan! I appreciate you reaching out. How are you doing today? ''
         @ [CHR 0xF0, CHR 0x9F, CHR 0x92, CHR 0x95]"
proof -
  have m: "llm_model (latest_account (account_lookup stuck_backends)) plain_account
             = ''google/gemini-2.0-flash-001''"
    by (simp add: llm_model_def latest_account_def stuck_backends_def plain_account_def value_or_def
          default_model_def)
  have s: "fal_submit stuck_backends (llm_user_prompt ''hi'' ''fan'' [])
      (llm_system_prompt (latest_account (account_lookup stuck_backends)) plain_account)
      (llm_model (latest_account (account_lookup stuck_backends)) plain_account) = SubmitAccepted ''r1''"
    by (simp add: stuck_backends_def)
  have p: "\<forall>k < 30. poll_pending (fal_status stuck_backends ''r1'' k)"
    by (simp add: stuck_backends_def poll_pending_def)
  have l: "list_all (\<lambda>k. poll_pending (fal_status stuck_backends ''r1'' k)) [0..<30]"
    using p by (simp add: list_all_iff)
  have "generate_response_with_llm stuck_backends plain_account ''hi'' ''fan'' []
          = ''Thank you for your message, '' @ ''fan''
               @ ''! I appreciate you reaching out. How are you doing today? ''
               @ [CHR 0xF0, CHR 0x9F, CHR 0x92, CHR 0x95]"
    by (rule generation_failure_acknowledged [OF refl refl refl, where request_id = "''r1''"])
       (use m s p in simp)
  moreover have d: "account_lookup down_backends = LookupRaised"
    by (simp add: down_backends_def)
  moreover have "generate_response_with_llm down_backends plain_account ''hi'' ''fan'' []
          = ''Thank you for your message, '' @ ''fan''
               @ ''! I appreciate you reaching out. How are you doing today? ''
               @ [CHR 0xF0, CHR 0x9F, CHR 0x92, CHR 0x95]"
    by (rule generation_failure_acknowledged [OF refl refl refl]) (simp add: d)
  ultimately show ?thesis using m s l by simp
qed

section \<open>Properties of the dispatch\<close>

declare send_loop.simps [simp del]

lemma resolved_subscribers_append:
  "resolved_subscribers (xs @ ys) = resolved_subscribers xs @ resolved_subscribers ys"
  by (induction xs rule: resolved_subscribers.induct) auto

lemma send_loop_resolved:
  "resolved_subscribers (snd (send_loop env user_uuid t retry_count tr)) = resolved_subscribers tr"
proof (induction env user_uuid t retry_count tr rule: send_loop.induct)
  case (1 env user_uuid t retry_count tr)
  show ?case
  proof (cases "retry_count < max_retries")
    case False
    then show ?thesis by (subst send_loop.simps) simp
  next
    case True
    show ?thesis
    proof (cases "send_reply env tr")
      case SendRateLimited
      with True "1.IH" show ?thesis
        by (subst send_loop.simps) (simp add: resolved_subscribers_append)
    qed (use True in \<open>subst send_loop.simps, simp add: resolved_subscribers_append\<close>)+
  qed
qed

lemma respond_loop_resolved:
  "resolved_subscribers (respond_loop env user_uuid user_handle chat_history new_messages tr)
     = resolved_subscribers tr"
proof (induction new_messages arbitrary: tr)
  case Nil
  then show ?case by simp
next
  case (Cons message rest)
  show ?case
  proof (cases "msg_text message = []")
    case True
    then show ?thesis by (simp add: Cons.IH)
  next
    case False
    then show ?thesis
      using send_loop_resolved [of env user_uuid _ 0 tr]
      by (simp add: Let_def Cons.IH send_message_def resolved_subscribers_append split: prod.splits)
         (metis snd_conv)
  qed
qed

lemma respond_to_messages_resolved:
  "resolved_subscribers (respond_to_messages env user_uuid user_handle new_messages tr)
     = resolved_subscribers tr"
  by (simp add: respond_to_messages_def get_chat_messages_def respond_loop_resolved
        resolved_subscribers_append)

lemma process_subscriber_resolved:
  "resolved_subscribers (snd (snd (process_subscriber env subscriber (n, st, tr))))
     = resolved_subscribers tr @ subscriber_uuids [subscriber]"
  by (auto simp: process_subscriber_def get_chat_messages_def Let_def respond_to_messages_resolved
        resolved_subscribers_append split: option.splits prod.splits)

lemma fold_process_resolved:
  "resolved_subscribers (snd (snd (fold (process_subscriber env) subscribers acc)))
     = resolved_subscribers (snd (snd acc)) @ subscriber_uuids subscribers"
proof (induction subscribers arbitrary: acc)
  case Nil
  then show ?case by simp
next
  case (Cons s subscribers)
  obtain n st tr where acc: "acc = (n, st, tr)" by (cases acc)
  have "resolved_subscribers (snd (snd (process_subscriber env s acc)))
          = resolved_subscribers (snd (snd acc)) @ subscriber_uuids [s]"
    unfolding acc by (simp only: process_subscriber_resolved snd_conv)
  then show ?case
    by (simp add: Cons.IH split: option.splits)
qed

lemma cycle_resolves_every_subscriber:
  "resolved_subscribers (snd (snd (monitor_single_cycle env st tr)))
     = resolved_subscribers tr @ subscriber_uuids (subscribers_reply env tr)"
  by (simp add: monitor_single_cycle_def Let_def fold_process_resolved)

lemma send_message_first:
  assumes "send_reply env tr \<noteq> SendRateLimited"
  shows "send_message env user_uuid t tr = (send_reply env tr = SendOk, tr @ [Posted user_uuid t])"
  using assms unfolding send_message_def
  by (subst send_loop.simps) (simp add: max_retries_def split: send_outcome.splits)

lemma send_message_second:
  assumes "send_reply env tr = SendRateLimited"
      and "tr1 = tr @ [Posted user_uuid t, Slept 60]"
      and "send_reply env tr1 \<noteq> SendRateLimited"
  shows "send_message env user_uuid t tr = (send_reply env tr1 = SendOk, tr1 @ [Posted user_uuid t])"
  using assms unfolding send_message_def
  by (subst send_loop.simps, simp add: max_retries_def)
     (subst send_loop.simps, simp add: max_retries_def split: send_outcome.splits)

lemma send_message_third:
  assumes "send_reply env tr = SendRateLimited"
      and "tr1 = tr @ [Posted user_uuid t, Slept 60]"
      and "send_reply env tr1 = SendRateLimited"
      and "tr2 = tr1 @ [Posted user_uuid t, Slept 60]"
      and "send_reply env tr2 \<noteq> SendRateLimited"
  shows "send_message env user_uuid t tr = (send_reply env tr2 = SendOk, tr2 @ [Posted user_uuid t])"
  using assms unfolding send_message_def
  by (subst send_loop.simps, simp add: max_retries_def)
     (subst send_loop.simps, simp add: max_retries_def,
      subst send_loop.simps, simp add: max_retries_def split: send_outcome.splits)

lemma send_message_exhausted:
  assumes "send_reply env tr = SendRateLimited"
      and "tr1 = tr @ [Posted user_uuid t, Slept 60]"
      and "send_reply env tr1 = SendRateLimited"
      and "tr2 = tr1 @ [Posted user_uuid t, Slept 60]"
      and "send_reply env tr2 = SendRateLimited"
  shows "send_message env user_uuid t tr = (False, tr2 @ [Posted user_uuid t, Slept 60])"
  using assms unfolding send_message_def
  by (subst send_loop.simps, simp add: max_retries_def)
     (subst send_loop.simps, simp add: max_retries_def,
      subst send_loop.simps, simp add: max_retries_def,
      subst send_loop.simps, simp add: max_retries_def)

text \<open>
  Claim C6. \<^verbatim>\<open>send_message\<close> makes at most three POSTs. An attempt that is not
  rate-limited ends the call at once, with success exactly when the POST succeeded and
  with failure, without another attempt, on any other error; only a 429 leads to the
  next attempt, after a sleep of 60 seconds. When all three attempts are rate-limited
  the call returns failure as a value. And \<^verbatim>\<open>monitor_single_cycle\<close> resolves every
  subscriber of the list in order, whatever the outcomes of the POSTs made on the way.
\<close>

theorem send_message_bounded_retry:
  assumes "post = Posted user_uuid t"
      and "tr1 = tr @ [post, Slept 60]"
      and "tr2 = tr1 @ [post, Slept 60]"
  shows "(send_reply env tr \<noteq> SendRateLimited \<longrightarrow>
            send_message env user_uuid t tr = (send_reply env tr = SendOk, tr @ [post])) \<and>
         (send_reply env tr = SendRateLimited \<and> send_reply env tr1 \<noteq> SendRateLimited \<longrightarrow>
            send_message env user_uuid t tr = (send_reply env tr1 = SendOk, tr1 @ [post])) \<and>
         (send_reply env tr = SendRateLimited \<and> send_reply env tr1 = SendRateLimited \<and>
          send_reply env tr2 \<noteq> SendRateLimited \<longrightarrow>
            send_message env user_uuid t tr = (send_reply env tr2 = SendOk, tr2 @ [post])) \<and>
         (send_reply env tr = SendRateLimited \<and> send_reply env tr1 = SendRateLimited \<and>
          send_reply env tr2 = SendRateLimited \<longrightarrow>
            send_message env user_uuid t tr = (False, tr2 @ [post, Slept 60])) \<and>
         resolved_subscribers (snd (snd (monitor_single_cycle env st tr)))
           = resolved_subscribers tr @ subscriber_uuids (subscribers_reply env tr)"
  using assms send_message_first [of env tr user_uuid t]
    send_message_second [of env tr tr1 user_uuid t]
    send_message_third [of env tr tr1 user_uuid t tr2]
    send_message_exhausted [of env tr tr1 user_uuid t tr2]
    cycle_resolves_every_subscriber [of env st tr]
  by simp

theorem send_message_bounded_retry_witness:
  "send_reply limited_env [] = SendRateLimited \<and>
   send_reply limited_env [Posted ''a'' ''yo'', Slept 60] = SendRateLimited \<and>
   send_reply limited_env [Posted ''a'' ''yo'', Slept 60, Posted ''a'' ''yo'', Slept 60] = SendRateLimited \<and>
   send_message limited_env ''a'' ''yo'' []
     = (False, [Posted ''a'' ''yo'', Slept 60, Posted ''a'' ''yo'', Slept 60, Posted ''a'' ''yo'', Slept 60]) \<and>
   fst (monitor_single_cycle limited_env empty_state []) = 2 \<and>
   resolved_subscribers (snd (snd (monitor_single_cycle limited_env empty_state []))) = [''a'', ''b'']"
proof -
  have r: "send_reply limited_env tr = SendRateLimited" for tr
    by (simp add: limited_env_def)
  have c: "fst (monitor_single_cycle limited_env empty_state []) = 2"
    by (simp add: monitor_single_cycle_def process_subscriber_def get_chat_messages_def limited_env_def
          eval_defs respond_to_messages_def send_message_def max_retries_def send_loop.simps)
  have s: "subscriber_uuids (subscribers_reply limited_env []) = [''a'', ''b'']"
    by (simp add: limited_env_def)
  from send_message_bounded_retry [OF refl refl refl, of limited_env "[]" "''a''" "''yo''" empty_state]
    r c s
  show ?thesis by simp
qed

end
